theory Spec2Isabelle
  imports Main "HOL-Library.Sublist"
begin

section \<open>Python values\<close>

text \<open>
  A Python \<open>str\<close> is a sequence of Unicode code points and \<open>len\<close> counts code points,
  so a \<open>str\<close> is modelled as a list of code points. \<open>lit\<close> embeds an ASCII literal of
  the source.
\<close>

type_synonym pystr = "nat list"

definition lit :: "string \<Rightarrow> pystr" where
  "lit s = map of_char s"

text \<open>
  The values \<open>yaml.safe_load\<close> can build: \<open>None\<close>, \<open>bool\<close>, \<open>int\<close>, \<open>float\<close>, \<open>str\<close>,
  \<open>bytes\<close>, \<open>datetime.date\<close>, \<open>datetime.datetime\<close>, \<open>list\<close>, \<open>tuple\<close> (the items of
  \<open>!!pairs\<close> and \<open>!!omap\<close>), \<open>set\<close> and \<open>dict\<close>. The validator never looks inside a
  float, a date, a datetime or a bytes object; their payloads are carried along only to
  keep different values apart. A \<open>dict\<close> is an association list, looked up with
  \<open>map_of\<close>; a \<open>set\<close> is the list of its members.
\<close>

datatype pyfloat = Finite int int | Infinity bool | NaN

datatype pyval =
    PNone
  | PBool bool
  | PInt int
  | PFloat pyfloat
  | PStr pystr
  | PBytes "nat list"
  | PDate nat nat nat
  | PDatetime int
  | PList "pyval list"
  | PTuple "pyval list"
  | PSet "pyval list"
  | PDict "(pyval \<times> pyval) list"

datatype py_exception = TypeError | KeyError | OtherException

text \<open>\<open>type(v).__name__\<close>\<close>

fun type_name :: "pyval \<Rightarrow> pystr" where
  "type_name PNone = lit ''NoneType''"
| "type_name (PBool _) = lit ''bool''"
| "type_name (PInt _) = lit ''int''"
| "type_name (PFloat _) = lit ''float''"
| "type_name (PStr _) = lit ''str''"
| "type_name (PBytes _) = lit ''bytes''"
| "type_name (PDate _ _ _) = lit ''date''"
| "type_name (PDatetime _) = lit ''datetime''"
| "type_name (PList _) = lit ''list''"
| "type_name (PTuple _) = lit ''tuple''"
| "type_name (PSet _) = lit ''set''"
| "type_name (PDict _) = lit ''dict''"

text \<open>
  \<open>k in v\<close> for a \<open>str\<close> \<open>k\<close>: key membership on a dict, element membership on a list,
  tuple or set, substring test on a str, and \<open>TypeError\<close> on every other value
  (\<open>None\<close>, numbers, dates are not iterable; bytes refuses a \<open>str\<close> operand).
\<close>

fun py_contains :: "pyval \<Rightarrow> pystr \<Rightarrow> py_exception + bool" where
  "py_contains (PDict kvs) k = Inr (map_of kvs (PStr k) \<noteq> None)"
| "py_contains (PList xs) k = Inr (PStr k \<in> set xs)"
| "py_contains (PTuple xs) k = Inr (PStr k \<in> set xs)"
| "py_contains (PSet xs) k = Inr (PStr k \<in> set xs)"
| "py_contains (PStr s) k = Inr (sublist k s)"
| "py_contains _ k = Inl TypeError"

text \<open>
  \<open>v[k]\<close> for a \<open>str\<close> \<open>k\<close>: the value on a dict (\<open>KeyError\<close> when the key is absent),
  \<open>TypeError\<close> on every other value (a list, tuple, str or bytes index must be an
  integer; the rest is not subscriptable).
\<close>

fun py_getitem :: "pyval \<Rightarrow> pystr \<Rightarrow> py_exception + pyval" where
  "py_getitem (PDict kvs) k =
     (case map_of kvs (PStr k) of None \<Rightarrow> Inl KeyError | Some v \<Rightarrow> Inr v)"
| "py_getitem _ k = Inl TypeError"

text \<open>\<open>str(n)\<close> of a non-negative integer, as the f-strings format the index.\<close>

fun str_nat :: "nat \<Rightarrow> pystr" where
  "str_nat n = (if n < 10 then [48 + n] else str_nat (n div 10) @ [48 + n mod 10])"

declare str_nat.simps [simp del]

section \<open>The validator\<close>

text \<open>The path \<open>"reviews.labeling_instructions[{i}]"\<close>, quotes included.\<close>

definition path :: "nat \<Rightarrow> pystr" where
  "path i = [34] @ lit ''reviews.labeling_instructions['' @ str_nat i @ lit '']'' @ [34]"

text \<open>Lines 45 to 52: the \<open>label\<close> field of a dict element.\<close>

definition check_label :: "nat \<Rightarrow> (pyval \<times> pyval) list \<Rightarrow> pystr list \<Rightarrow> pystr list" where
  "check_label i instruction errors =
     (case map_of instruction (PStr (lit ''label'')) of
        None \<Rightarrow> errors @ [lit ''Missing 'label' field at '' @ path i]
      | Some v \<Rightarrow>
          (case v of
             PStr _ \<Rightarrow> errors
           | _ \<Rightarrow> errors @ [lit '''label' must be a string at '' @ path i]))"

text \<open>Lines 54 to 65: the \<open>instructions\<close> field of a dict element.\<close>

definition check_instructions_field ::
  "nat \<Rightarrow> (pyval \<times> pyval) list \<Rightarrow> pystr list \<Rightarrow> pystr list" where
  "check_instructions_field i instruction errors =
     (case map_of instruction (PStr (lit ''instructions'')) of
        None \<Rightarrow> errors @ [lit ''Missing 'instructions' field at '' @ path i]
      | Some v \<Rightarrow>
          (case v of
             PStr s \<Rightarrow>
               if length s > 3000
               then errors @ [lit '''instructions' exceeds 3000 character limit at '' @ path i]
               else errors
           | _ \<Rightarrow> errors @ [lit '''instructions' must be a string at '' @ path i]))"

text \<open>Lines 39 to 70: the body of the loop, for the element at index \<open>i\<close>.\<close>

fun check_instruction :: "nat \<Rightarrow> pyval \<Rightarrow> pystr list \<Rightarrow> pystr list" where
  "check_instruction i (PStr s) errors =
     errors @ [lit ''Expected object, received string at '' @ path i]"
| "check_instruction i (PDict d) errors =
     check_instructions_field i d (check_label i d errors)"
| "check_instruction i v errors =
     errors @ [lit ''Invalid type at '' @ path i @ lit '': '' @
               lit ''expected object, got '' @ type_name v]"

text \<open>Line 37: \<open>for i, instruction in enumerate(instructions)\<close>, from index \<open>i\<close> on.\<close>

fun check_instructions :: "nat \<Rightarrow> pyval list \<Rightarrow> pystr list \<Rightarrow> pystr list" where
  "check_instructions i [] errors = errors"
| "check_instructions i (instruction # rest) errors =
     check_instructions (Suc i) rest (check_instruction i instruction errors)"

text \<open>Lines 23 to 75: the checks on the loaded document \<open>config\<close>.\<close>

definition validate_config :: "pyval \<Rightarrow> py_exception + pystr list" where
  "validate_config config =
     (case py_contains config (lit ''reviews'') of
        Inl ex \<Rightarrow> Inl ex
      | Inr present \<Rightarrow>
          if \<not> present then Inr ([] @ [lit ''Missing 'reviews' section''])
          else
            (case py_getitem config (lit ''reviews'') of
               Inl ex \<Rightarrow> Inl ex
             | Inr reviews \<Rightarrow>
                 (case py_contains reviews (lit ''labeling_instructions'') of
                    Inl ex \<Rightarrow> Inl ex
                  | Inr has_li \<Rightarrow>
                      if has_li then
                        (case py_getitem reviews (lit ''labeling_instructions'') of
                           Inl ex \<Rightarrow> Inl ex
                         | Inr instructions \<Rightarrow>
                             (case instructions of
                                PList xs \<Rightarrow> Inr (check_instructions 0 xs [])
                              | _ \<Rightarrow>
                                  Inr ([] @ [lit '''reviews.labeling_instructions' must be a list''])))
                      else Inr [])))"

text \<open>
  Lines 15 to 21: what opening and parsing the file did. \<open>yaml.YAMLError\<close> carries its
  message; any exception other than the two caught ones propagates.
\<close>

datatype load_outcome =
    Loaded pyval
  | RaisesYAMLError pystr
  | RaisesFileNotFoundError
  | RaisesOther py_exception

definition validate_coderabbit_yaml :: "pystr \<Rightarrow> load_outcome \<Rightarrow> py_exception + pystr list" where
  "validate_coderabbit_yaml filepath outcome =
     (case outcome of
        RaisesYAMLError e \<Rightarrow> Inr [lit ''YAML syntax error: '' @ e]
      | RaisesFileNotFoundError \<Rightarrow> Inr [lit ''File not found: '' @ filepath]
      | RaisesOther ex \<Rightarrow> Inl ex
      | Loaded config \<Rightarrow> validate_config config)"

section \<open>The command line\<close>






section \<open>Classifications used in the statements\<close>

text \<open>\<open>isinstance(v, dict)\<close>, \<open>isinstance(v, list)\<close>, \<open>isinstance(v, str)\<close>.\<close>

fun is_dict :: "pyval \<Rightarrow> bool" where
  "is_dict (PDict _) = True"
| "is_dict _ = False"

fun is_list :: "pyval \<Rightarrow> bool" where
  "is_list (PList _) = True"
| "is_list _ = False"

fun is_str :: "pyval \<Rightarrow> bool" where
  "is_str (PStr _) = True"
| "is_str _ = False"

text \<open>
  \<open>lacks v k\<close>: \<open>v\<close> is a str, list, tuple or set in which the str \<open>k\<close> does not occur
  (as a substring of a str, as a member of the others).
\<close>

fun lacks :: "pyval \<Rightarrow> pystr \<Rightarrow> bool" where
  "lacks (PStr s) k = (\<not> sublist k s)"
| "lacks (PList xs) k = (PStr k \<notin> set xs)"
| "lacks (PTuple xs) k = (PStr k \<notin> set xs)"
| "lacks (PSet xs) k = (PStr k \<notin> set xs)"
| "lacks _ k = False"

text \<open>
  A message mentions index \<open>i\<close> when the quoted path of \<open>i\<close> occurs in it. \<open>path_body\<close> is
  the path without its quotes; \<open>at_path i\<close> holds of a message built around the path of
  \<open>i\<close> from texts without a double quote.
\<close>

definition mentions :: "nat \<Rightarrow> pystr \<Rightarrow> bool" where
  "mentions i message = sublist (path i) message"

definition path_body :: "nat \<Rightarrow> pystr" where
  "path_body i = lit ''reviews.labeling_instructions['' @ str_nat i @ lit '']''"

definition at_path :: "nat \<Rightarrow> pystr \<Rightarrow> bool" where
  "at_path i message = (\<exists>p s. message = p @ path i @ s \<and> 34 \<notin> set p \<and> 34 \<notin> set s)"

text \<open>
  \<open>decimal_of n s\<close>: \<open>s\<close> is the decimal numeral of \<open>n\<close>, that is digits only (code points
  48 to 57), at least one, no leading zero except for \<open>0\<close> itself, and of value \<open>n\<close>.
\<close>

definition decimal_of :: "nat \<Rightarrow> pystr \<Rightarrow> bool" where
  "decimal_of n s \<longleftrightarrow>
     s \<noteq> [] \<and> (\<forall>c \<in> set s. 48 \<le> c \<and> c \<le> 57) \<and> (hd s = 48 \<longrightarrow> s = [48]) \<and>
     foldl (\<lambda>a c. 10 * a + (c - 48)) 0 s = n"

section \<open>The loop appends and goes through the list in order\<close>

lemma check_label_append:
  "check_label i d errors = errors @ check_label i d []"
  by (simp add: check_label_def split: option.splits pyval.splits)

lemma check_instructions_field_append:
  "check_instructions_field i d errors = errors @ check_instructions_field i d []"
  by (simp add: check_instructions_field_def split: option.splits pyval.splits)

lemma check_instruction_dict:
  "check_instruction i (PDict d) errors =
     errors @ check_label i d [] @ check_instructions_field i d []"
proof -
  have "check_instruction i (PDict d) errors =
          check_instructions_field i d (check_label i d errors)"
    by simp
  also have "\<dots> = check_label i d errors @ check_instructions_field i d []"
    by (rule check_instructions_field_append)
  also have "\<dots> = (errors @ check_label i d []) @ check_instructions_field i d []"
    by (subst check_label_append) (rule refl)
  finally show ?thesis by simp
qed

lemma check_instruction_append:
  "check_instruction i v errors = errors @ check_instruction i v []"
proof (cases "is_dict v")
  case True
  then obtain d where "v = PDict d" by (cases v) simp_all
  then show ?thesis by (simp only: check_instruction_dict append_Nil)
next
  case False
  then show ?thesis by (cases v) simp_all
qed

lemma check_instructions_append:
  "check_instructions i xs errors = errors @ check_instructions i xs []"
proof (induction xs arbitrary: i errors)
  case Nil
  show ?case by simp
next
  case (Cons x xs)
  have "check_instructions i (x # xs) errors =
          check_instructions (Suc i) xs (check_instruction i x errors)"
    by simp
  also have "\<dots> = check_instruction i x errors @ check_instructions (Suc i) xs []"
    by (rule Cons.IH)
  also have "\<dots> = errors @ check_instruction i x [] @ check_instructions (Suc i) xs []"
    by (subst check_instruction_append) simp
  also have "check_instruction i x [] @ check_instructions (Suc i) xs [] =
               check_instructions (Suc i) xs (check_instruction i x [])"
    by (rule Cons.IH [symmetric])
  finally show ?case by simp
qed

lemma check_instructions_Cons:
  "check_instructions i (x # xs) [] =
     check_instruction i x [] @ check_instructions (Suc i) xs []"
  using check_instructions_append [of "Suc i" xs "check_instruction i x []"] by simp

lemma check_instructions_app:
  "check_instructions i (xs @ ys) [] =
     check_instructions i xs [] @ check_instructions (i + length xs) ys []"
proof (induction xs arbitrary: i)
  case Nil
  show ?case by simp
next
  case (Cons x xs)
  show ?case
    by (simp only: append_Cons check_instructions_Cons Cons.IH append_assoc length_Cons add_Suc_right add_Suc)
qed

lemma check_instructions_at:
  assumes "n < length xs"
  shows "check_instructions 0 xs [] =
           check_instructions 0 (take n xs) [] @ check_instruction n (xs ! n) [] @
           check_instructions (Suc n) (drop (Suc n) xs) []"
proof -
  have xs: "xs = take n xs @ (xs ! n # drop (Suc n) xs)"
    using assms by (simp add: id_take_nth_drop [symmetric])
  have len: "length (take n xs) = n"
    using assms by simp
  have "check_instructions 0 xs [] =
          check_instructions 0 (take n xs @ (xs ! n # drop (Suc n) xs)) []"
    using xs by simp
  also have "\<dots> = check_instructions 0 (take n xs) [] @
                     check_instructions n (xs ! n # drop (Suc n) xs) []"
    using check_instructions_app [of 0 "take n xs" "xs ! n # drop (Suc n) xs"] len by simp
  finally show ?thesis
    by (simp only: check_instructions_Cons)
qed

lemma validate_config_no_reviews:
  "map_of kvs (PStr (lit ''reviews'')) = None \<Longrightarrow>
   validate_config (PDict kvs) = Inr [lit ''Missing 'reviews' section'']"
  by (simp add: validate_config_def)

lemma validate_config_reviews_dict:
  assumes "map_of kvs (PStr (lit ''reviews'')) = Some (PDict rs)"
  shows "validate_config (PDict kvs) =
           (case map_of rs (PStr (lit ''labeling_instructions'')) of
              None \<Rightarrow> Inr []
            | Some v \<Rightarrow>
                (case v of
                   PList xs \<Rightarrow> Inr (check_instructions 0 xs [])
                 | _ \<Rightarrow> Inr [lit '''reviews.labeling_instructions' must be a list'']))"
  using assms by (simp add: validate_config_def split: option.splits pyval.splits)

lemma validate_config_list:
  assumes "map_of kvs (PStr (lit ''reviews'')) = Some (PDict rs)"
      and "map_of rs (PStr (lit ''labeling_instructions'')) = Some (PList xs)"
  shows "validate_config (PDict kvs) = Inr (check_instructions 0 xs [])"
  using assms by (simp add: validate_config_reviews_dict)

lemma validate_config_not_list:
  assumes "map_of kvs (PStr (lit ''reviews'')) = Some (PDict rs)"
      and "map_of rs (PStr (lit ''labeling_instructions'')) = Some v"
      and "\<not> is_list v"
  shows "validate_config (PDict kvs) =
           Inr [lit '''reviews.labeling_instructions' must be a list'']"
  using assms by (cases v) (simp_all add: validate_config_reviews_dict)

lemma validate_config_non_dict:
  assumes "\<not> is_dict root"
  shows "validate_config root =
           (if lacks root (lit ''reviews'') then Inr [lit ''Missing 'reviews' section'']
            else Inl TypeError)"
  using assms by (cases root) (simp_all add: validate_config_def)

lemma validate_config_reviews_non_dict:
  assumes "map_of kvs (PStr (lit ''reviews'')) = Some r" and "\<not> is_dict r"
  shows "validate_config (PDict kvs) =
           (if lacks r (lit ''labeling_instructions'') then Inr [] else Inl TypeError)"
  using assms by (cases r) (simp_all add: validate_config_def)

lemma validate_config_at:
  assumes "map_of kvs (PStr (lit ''reviews'')) = Some (PDict rs)"
      and "map_of rs (PStr (lit ''labeling_instructions'')) = Some (PList xs)"
      and "i < length xs"
  shows "validate_config (PDict kvs) =
           Inr (check_instructions 0 (take i xs) [] @ check_instruction i (xs ! i) [] @
                check_instructions (Suc i) (drop (Suc i) xs) [])"
  using validate_config_list [OF assms(1,2)] check_instructions_at [OF assms(3)] by simp

lemma check_instructions_field_cases:
  "check_instructions_field i d [] =
     (case map_of d (PStr (lit ''instructions'')) of
        None \<Rightarrow> [lit ''Missing 'instructions' field at '' @ path i]
      | Some v \<Rightarrow>
          if \<not> is_str v then [lit '''instructions' must be a string at '' @ path i]
          else if (\<exists>s. v = PStr s \<and> 3000 < length s)
          then [lit '''instructions' exceeds 3000 character limit at '' @ path i]
          else [])"
  by (simp add: check_instructions_field_def split: option.splits pyval.splits)

section \<open>Schema messages, loader messages and the report\<close>










section \<open>Every message holds the path of its own index only\<close>

lemma str_nat_not_Nil: "str_nat n \<noteq> []"
  by (subst str_nat.simps) simp

lemma str_nat_digits: "c \<in> set (str_nat n) \<Longrightarrow> 48 \<le> c \<and> c \<le> 57"
proof (induction n rule: str_nat.induct)
  case (1 n)
  show ?case
  proof (cases "n < 10")
    case True
    with "1.prems" show ?thesis
      by (subst (asm) str_nat.simps) simp
  next
    case False
    from "1.prems" False
    have "c \<in> set (str_nat (n div 10)) \<or> c = 48 + n mod 10"
      by (subst (asm) str_nat.simps) auto
    then show ?thesis
    proof
      assume "c \<in> set (str_nat (n div 10))"
      with "1.IH" False show ?thesis by simp
    next
      assume "c = 48 + n mod 10"
      moreover have "n mod 10 < 10" by simp
      ultimately show ?thesis by linarith
    qed
  qed
qed

lemma str_nat_inj: "str_nat n = str_nat m \<Longrightarrow> n = m"
proof (induction n arbitrary: m rule: str_nat.induct)
  case (1 n)
  show ?case
  proof (cases "n < 10")
    case n: True
    show ?thesis
    proof (cases "m < 10")
      case True
      with n "1.prems" show ?thesis
        by (simp add: str_nat.simps [of n] str_nat.simps [of m])
    next
      case False
      with n "1.prems" have "[48 + n] = str_nat (m div 10) @ [48 + m mod 10]"
        by (simp add: str_nat.simps [of n] str_nat.simps [of m])
      then have "str_nat (m div 10) = []" by simp
      with str_nat_not_Nil show ?thesis by blast
    qed
  next
    case n: False
    show ?thesis
    proof (cases "m < 10")
      case True
      with n "1.prems" have "str_nat (n div 10) @ [48 + n mod 10] = [48 + m]"
        by (simp add: str_nat.simps [of n] str_nat.simps [of m])
      then have "str_nat (n div 10) = []" by simp
      with str_nat_not_Nil show ?thesis by blast
    next
      case False
      with n "1.prems"
      have "str_nat (n div 10) @ [48 + n mod 10] = str_nat (m div 10) @ [48 + m mod 10]"
        by (simp add: str_nat.simps [of n] str_nat.simps [of m])
      then have d: "str_nat (n div 10) = str_nat (m div 10)" and r: "n mod 10 = m mod 10"
        by simp_all
      from "1.IH" [OF n d] have "n div 10 = m div 10" .
      with r show ?thesis
        by (metis div_mult_mod_eq)
    qed
  qed
qed

lemma str_nat_value: "foldl (\<lambda>a c. 10 * a + (c - 48)) 0 (str_nat n) = n"
proof (induction n rule: str_nat.induct)
  case (1 n)
  show ?case
  proof (cases "n < 10")
    case True
    then show ?thesis by (simp add: str_nat.simps [of n])
  next
    case False
    with "1.IH" show ?thesis by (simp add: str_nat.simps [of n])
  qed
qed

lemma str_nat_no_leading_zero: "hd (str_nat n) = 48 \<Longrightarrow> str_nat n = [48]"
proof (induction n rule: str_nat.induct)
  case (1 n)
  show ?case
  proof (cases "n < 10")
    case True
    then have s: "str_nat n = [48 + n]" by (simp add: str_nat.simps [of n])
    from "1.prems" have "n = 0" unfolding s by simp
    with s show ?thesis by simp
  next
    case False
    with "1.prems" have "hd (str_nat (n div 10)) = 48"
      by (simp add: str_nat.simps [of n] str_nat_not_Nil)
    with "1.IH" False have "str_nat (n div 10) = [48]" by simp
    then have "foldl (\<lambda>a c. 10 * a + (c - 48)) 0 (str_nat (n div 10)) = 0" by simp
    then have "n div 10 = 0" by (simp only: str_nat_value)
    with False show ?thesis by simp
  qed
qed

lemma str_nat_decimal: "decimal_of n (str_nat n)"
  unfolding decimal_of_def
  using str_nat_not_Nil str_nat_digits str_nat_no_leading_zero str_nat_value by blast

lemma first_occurrence_unique:
  "x \<notin> set xs \<Longrightarrow> x \<notin> set ys \<Longrightarrow> xs @ x # r = ys @ x # r' \<Longrightarrow> xs = ys \<and> r = r'"
proof (induction xs arbitrary: ys)
  case Nil
  then show ?case by (cases ys) auto
next
  case (Cons z zs)
  then show ?case by (cases ys) auto
qed

lemma quoted_unique:
  assumes "q \<notin> set p" and "q \<notin> set a" and "q \<notin> set s" and "q \<notin> set b"
      and "sublist (q # b @ [q]) (p @ q # a @ q # s)"
  shows "b = a"
proof -
  from assms(5) obtain us vs where eq: "p @ q # a @ q # s = us @ (q # b @ [q]) @ vs"
    by (auto simp: sublist_def)
  have "count_list (p @ q # a @ q # s) q = 2"
    using assms(1,2,3) by (simp add: count_list_0_iff [THEN iffD2])
  moreover have "count_list (us @ (q # b @ [q]) @ vs) q = count_list us q + 2 + count_list vs q"
    using assms(4) by (simp add: count_list_0_iff [THEN iffD2])
  ultimately have "count_list us q = 0" and "count_list vs q = 0"
    using eq by simp_all
  then have us: "q \<notin> set us" and vs: "q \<notin> set vs"
    by (simp_all add: count_list_0_iff)
  from eq have "p @ q # (a @ q # s) = us @ q # (b @ q # vs)"
    by simp
  with assms(1) us have "a @ q # s = b @ q # vs"
    using first_occurrence_unique [of q p us "a @ q # s" "b @ q # vs"] by blast
  with assms(2,4) show ?thesis
    using first_occurrence_unique [of q a b s vs] by blast
qed

lemma path_quoted: "path i = 34 # path_body i @ [34]"
  by (simp add: path_def path_body_def)

lemma path_body_no_quote: "34 \<notin> set (path_body i)"
proof -
  have "34 \<notin> set (str_nat i)"
    using str_nat_digits [of 34 i] by auto
  then show ?thesis
    by (simp add: path_body_def lit_def)
qed

lemma path_body_inj: "path_body i = path_body j \<Longrightarrow> i = j"
  by (simp add: path_body_def str_nat_inj)

lemma type_name_no_quote: "34 \<notin> set (type_name v)"
  by (cases v) (simp_all add: lit_def)


lemma at_pathI: "34 \<notin> set p \<Longrightarrow> 34 \<notin> set s \<Longrightarrow> at_path i (p @ path i @ s)"
  unfolding at_path_def by blast

lemma at_path_prefixI: "34 \<notin> set p \<Longrightarrow> at_path i (p @ path i)"
  using at_pathI [of p "[]" i] by simp

lemma at_path_mentions: "at_path i m \<Longrightarrow> mentions i m"
  unfolding at_path_def mentions_def sublist_def by blast

lemma at_path_only:
  assumes "at_path i m" and "mentions j m"
  shows "j = i"
proof -
  from assms(1) obtain p s where m: "m = p @ path i @ s" and p: "34 \<notin> set p" and s: "34 \<notin> set s"
    unfolding at_path_def by blast
  have "sublist (34 # path_body j @ [34]) (p @ 34 # path_body i @ 34 # s)"
    using assms(2) unfolding mentions_def m path_quoted by simp
  from quoted_unique [OF p path_body_no_quote s path_body_no_quote this]
  show ?thesis by (rule path_body_inj)
qed

lemma message_literals_no_quote:
  "34 \<notin> set (lit ''Expected object, received string at '')"
  "34 \<notin> set (lit ''Missing 'label' field at '')"
  "34 \<notin> set (lit '''label' must be a string at '')"
  "34 \<notin> set (lit ''Missing 'instructions' field at '')"
  "34 \<notin> set (lit '''instructions' must be a string at '')"
  "34 \<notin> set (lit '''instructions' exceeds 3000 character limit at '')"
  "34 \<notin> set (lit ''Invalid type at '')"
  "34 \<notin> set (lit '': '')"
  "34 \<notin> set (lit ''expected object, got '')"
  by (simp_all add: lit_def)

lemma check_label_at_path: "m \<in> set (check_label i d []) \<Longrightarrow> at_path i m"
  by (auto simp: check_label_def message_literals_no_quote intro!: at_path_prefixI
           split: option.splits pyval.splits)

lemma check_instructions_field_at_path:
  "m \<in> set (check_instructions_field i d []) \<Longrightarrow> at_path i m"
  by (auto simp: check_instructions_field_def message_literals_no_quote intro!: at_path_prefixI
           split: option.splits pyval.splits if_splits)

lemma check_label_length: "length (check_label i d []) \<le> 1"
  by (simp add: check_label_def split: option.splits pyval.splits)

lemma check_instructions_field_length: "length (check_instructions_field i d []) \<le> 1"
  by (simp add: check_instructions_field_def split: option.splits pyval.splits)

lemma check_instruction_other:
  "\<not> is_str v \<Longrightarrow> \<not> is_dict v \<Longrightarrow>
   check_instruction i v [] =
     [lit ''Invalid type at '' @ path i @ lit '': '' @ lit ''expected object, got '' @ type_name v]"
  by (cases v) simp_all

lemma check_instruction_at_path:
  assumes "m \<in> set (check_instruction i v [])"
  shows "at_path i m"
proof (cases "is_dict v")
  case True
  then obtain d where v: "v = PDict d" by (cases v) simp_all
  from assms have "m \<in> set (check_label i d []) \<or> m \<in> set (check_instructions_field i d [])"
    unfolding v check_instruction_dict [of i d "[]"] by simp
  then show ?thesis
    using check_label_at_path check_instructions_field_at_path by blast
next
  case nd: False
  show ?thesis
  proof (cases "is_str v")
    case True
    then obtain t where "v = PStr t" by (cases v) simp_all
    with assms show ?thesis
      by (simp add: at_path_prefixI message_literals_no_quote)
  next
    case False
    have "34 \<notin> set (lit '': '' @ lit ''expected object, got '' @ type_name v)"
      by (simp add: message_literals_no_quote type_name_no_quote)
    from at_pathI [OF message_literals_no_quote(7) this, of i] assms
    show ?thesis
      by (simp add: check_instruction_other [OF False nd])
  qed
qed

lemma check_instruction_length:
  "length (check_instruction i v []) \<le> 2"
  "\<not> is_dict v \<Longrightarrow> length (check_instruction i v []) = 1"
proof -
  show "length (check_instruction i v []) \<le> 2"
  proof (cases "is_dict v")
    case True
    then obtain d where v: "v = PDict d" by (cases v) simp_all
    show ?thesis
      unfolding v check_instruction_dict [of i d "[]"]
      using check_label_length [of i d] check_instructions_field_length [of i d] by simp
  next
    case False
    then show ?thesis by (cases v) simp_all
  qed
  show "\<not> is_dict v \<Longrightarrow> length (check_instruction i v []) = 1"
    by (cases v) simp_all
qed

lemma check_instructions_enumerate:
  "check_instructions k xs [] =
     concat (map (\<lambda>(i, x). check_instruction i x []) (List.enumerate k xs))"
proof (induction xs arbitrary: k)
  case Nil
  show ?case by simp
next
  case (Cons x xs)
  show ?case
    by (simp only: check_instructions_Cons Cons.IH enumerate_simps list.map concat.simps
                   prod.case)
qed

lemma check_instructions_range:
  "m \<in> set (check_instructions k xs []) \<Longrightarrow>
   \<exists>i. k \<le> i \<and> i < k + length xs \<and> at_path i m"
proof (induction xs arbitrary: k)
  case Nil
  then show ?case by simp
next
  case (Cons x xs)
  from Cons.prems
  have "m \<in> set (check_instruction k x []) \<or> m \<in> set (check_instructions (Suc k) xs [])"
    by (simp only: check_instructions_Cons set_append Un_iff)
  then show ?case
  proof
    assume "m \<in> set (check_instruction k x [])"
    then have "at_path k m" by (rule check_instruction_at_path)
    then show ?thesis by auto
  next
    assume "m \<in> set (check_instructions (Suc k) xs [])"
    from Cons.IH [OF this] obtain i where "Suc k \<le> i" "i < Suc k + length xs" "at_path i m"
      by blast
    then have "k \<le> i \<and> i < k + length (x # xs) \<and> at_path i m" by simp
    then show ?thesis by blast
  qed
qed

lemma check_instructions_ordered:
  assumes "a < length (check_instructions k xs [])"
      and "b < length (check_instructions k xs [])"
      and "mentions i (check_instructions k xs [] ! a)"
      and "mentions j (check_instructions k xs [] ! b)"
      and "i < j"
  shows "a < b"
  using assms
proof (induction xs arbitrary: k a b)
  case Nil
  then show ?case by simp
next
  case (Cons x xs)
  let ?B = "check_instruction k x []"
  let ?R = "check_instructions (Suc k) xs []"
  have E: "check_instructions k (x # xs) [] = ?B @ ?R"
    by (rule check_instructions_Cons)
  have inB: "n = k" if "c < length ?B" "mentions n ((?B @ ?R) ! c)" for c n
  proof -
    from that(1) have "(?B @ ?R) ! c \<in> set ?B" by (simp add: nth_append)
    then have "at_path k ((?B @ ?R) ! c)" by (rule check_instruction_at_path)
    from at_path_only [OF this that(2)] show ?thesis .
  qed
  have inR: "Suc k \<le> n \<and> c - length ?B < length ?R \<and> (?B @ ?R) ! c = ?R ! (c - length ?B)"
    if "\<not> c < length ?B" "c < length (?B @ ?R)" "mentions n ((?B @ ?R) ! c)" for c n
  proof -
    from that(1,2) have c: "c - length ?B < length ?R" by simp
    from that(1) have nth: "(?B @ ?R) ! c = ?R ! (c - length ?B)" by (simp add: nth_append)
    with c have "(?B @ ?R) ! c \<in> set ?R" by simp
    from check_instructions_range [OF this] obtain i'
      where "Suc k \<le> i'" and "at_path i' ((?B @ ?R) ! c)" by blast
    with at_path_only [OF this(2) that(3)] c nth show ?thesis by simp
  qed
  from Cons.prems have a: "a < length (?B @ ?R)" and b: "b < length (?B @ ?R)"
    and ma: "mentions i ((?B @ ?R) ! a)" and mb: "mentions j ((?B @ ?R) ! b)"
    unfolding E by simp_all
  show ?case
  proof (cases "a < length ?B")
    case aB: True
    then have i: "i = k" using ma by (rule inB)
    show ?thesis
    proof (cases "b < length ?B")
      case True
      then have "j = k" using mb by (rule inB)
      with i Cons.prems(5) show ?thesis by simp
    next
      case False
      with aB show ?thesis by simp
    qed
  next
    case aR: False
    from inR [OF aR a ma] have i: "Suc k \<le> i" and a': "a - length ?B < length ?R"
      and na: "(?B @ ?R) ! a = ?R ! (a - length ?B)" by simp_all
    show ?thesis
    proof (cases "b < length ?B")
      case True
      then have "j = k" using mb by (rule inB)
      with i Cons.prems(5) show ?thesis by simp
    next
      case bR: False
      from inR [OF bR b mb] have b': "b - length ?B < length ?R"
        and nb: "(?B @ ?R) ! b = ?R ! (b - length ?B)" by simp_all
      from ma na have ma': "mentions i (?R ! (a - length ?B))" by simp
      from mb nb have mb': "mentions j (?R ! (b - length ?B))" by simp
      from Cons.IH [OF a' b' ma' mb' Cons.prems(5)] aR bR show ?thesis by simp
    qed
  qed
qed

section \<open>The claims\<close>

text \<open>
  C1. For every parsed document whose root mapping has no \<open>reviews\<close> key, the validator
  returns exactly one error, \<open>Missing 'reviews' section\<close>. Nothing else in the document
  has any influence on the result: no other check runs.
\<close>

theorem missing_reviews_single_error:
  assumes "map_of kvs (PStr (lit ''reviews'')) = None"
  shows "validate_config (PDict kvs) = Inr [lit ''Missing 'reviews' section''] \<and>
         validate_coderabbit_yaml filepath (Loaded (PDict kvs)) =
           Inr [lit ''Missing 'reviews' section'']"
  using assms by (simp add: validate_coderabbit_yaml_def validate_config_no_reviews)

theorem missing_reviews_single_error_witness:
  "map_of [(PStr (lit ''review''), PDict [(PStr (lit ''labeling_instructions''), PInt 7)])]
          (PStr (lit ''reviews'')) = None \<and>
   validate_config
     (PDict [(PStr (lit ''review''), PDict [(PStr (lit ''labeling_instructions''), PInt 7)])]) =
     Inr [lit ''Missing 'reviews' section'']"
proof -
  have h: "map_of [(PStr (lit ''review''), PDict [(PStr (lit ''labeling_instructions''), PInt 7)])]
                  (PStr (lit ''reviews'')) = None"
    by (simp add: lit_def)
  from missing_reviews_single_error [OF h] h show ?thesis by blast
qed

text \<open>
  C2, as stated, fails. With \<open>reviews: "oops"\<close> the test
  \<open>'labeling_instructions' in reviews\<close> is a substring test on a str: it is false, and the
  validator returns the empty error list. With a list as the root, \<open>'reviews' in config\<close>
  is a membership test: it is false, and the validator reports the missing section.
\<close>

theorem reviews_string_returns_no_error:
  "validate_config (PDict [(PStr (lit ''reviews''), PStr (lit ''oops''))]) = Inr [] \<and>
   validate_config (PList [PStr (lit ''a''), PStr (lit ''b'')]) =
     Inr [lit ''Missing 'reviews' section'']"
  by code_simp

text \<open>
  C2, amended. When the root document is not a mapping, validation ends in an uncaught
  \<open>TypeError\<close>, unless the root is a str, list, tuple or set in which \<open>reviews\<close> does not
  occur: then it returns the single error \<open>Missing 'reviews' section\<close>. When the root is a
  mapping whose \<open>reviews\<close> value is not a mapping, validation ends in an uncaught
  \<open>TypeError\<close>, unless that value is a str, list, tuple or set in which
  \<open>labeling_instructions\<close> does not occur: then it returns no error.
\<close>

theorem non_mapping_crash_or_lacks:
  "(\<not> is_dict root \<longrightarrow>
      validate_config root =
        (if lacks root (lit ''reviews'') then Inr [lit ''Missing 'reviews' section'']
         else Inl TypeError)) \<and>
   (map_of kvs (PStr (lit ''reviews'')) = Some r \<and> \<not> is_dict r \<longrightarrow>
      validate_config (PDict kvs) =
        (if lacks r (lit ''labeling_instructions'') then Inr [] else Inl TypeError))"
  by (simp add: validate_config_non_dict validate_config_reviews_non_dict)

theorem non_mapping_crash_or_lacks_witness:
  "\<not> is_dict PNone \<and> validate_config PNone = Inl TypeError \<and>
   map_of [(PStr (lit ''reviews''), PInt 3)] (PStr (lit ''reviews'')) = Some (PInt 3) \<and>
   \<not> is_dict (PInt 3) \<and>
   validate_config (PDict [(PStr (lit ''reviews''), PInt 3)]) = Inl TypeError"
  using non_mapping_crash_or_lacks [of PNone "[(PStr (lit ''reviews''), PInt 3)]" "PInt 3"]
  by simp

text \<open>
  C3. When the root is a mapping, \<open>reviews\<close> is a mapping and
  \<open>reviews.labeling_instructions\<close> is present with a value that is not a list, the
  validator returns exactly one error, \<open>'reviews.labeling_instructions' must be a list\<close>,
  and no message for any element.
\<close>

theorem not_a_list_single_error:
  assumes "map_of kvs (PStr (lit ''reviews'')) = Some (PDict rs)"
      and "map_of rs (PStr (lit ''labeling_instructions'')) = Some v"
      and "\<not> is_list v"
  shows "validate_config (PDict kvs) =
           Inr [lit '''reviews.labeling_instructions' must be a list'']"
  using assms by (rule validate_config_not_list)

theorem not_a_list_single_error_witness:
  "map_of [(PStr (lit ''reviews''), PDict [(PStr (lit ''labeling_instructions''), PNone)])]
          (PStr (lit ''reviews'')) = Some (PDict [(PStr (lit ''labeling_instructions''), PNone)]) \<and>
   map_of [(PStr (lit ''labeling_instructions''), PNone)] (PStr (lit ''labeling_instructions'')) =
     Some PNone \<and>
   \<not> is_list PNone \<and>
   validate_config
     (PDict [(PStr (lit ''reviews''), PDict [(PStr (lit ''labeling_instructions''), PNone)])]) =
     Inr [lit '''reviews.labeling_instructions' must be a list'']"
  using not_a_list_single_error
          [of "[(PStr (lit ''reviews''), PDict [(PStr (lit ''labeling_instructions''), PNone)])]"
              "[(PStr (lit ''labeling_instructions''), PNone)]" PNone]
  by simp

text \<open>
  C7. When the root is a mapping and its \<open>reviews\<close> value is a mapping, validation never
  raises: it returns a list of messages, whatever \<open>labeling_instructions\<close> holds.
  (Every function of the model is total, so the call terminates.)
\<close>

theorem mapping_reviews_never_raises:
  assumes "map_of kvs (PStr (lit ''reviews'')) = Some (PDict rs)"
  shows "\<exists>errors. validate_config (PDict kvs) = Inr errors \<and>
                  validate_coderabbit_yaml filepath (Loaded (PDict kvs)) = Inr errors"
  using assms
  by (simp add: validate_coderabbit_yaml_def validate_config_reviews_dict
           split: option.splits pyval.splits)

theorem mapping_reviews_never_raises_witness:
  "map_of [(PStr (lit ''reviews''), PDict [(PStr (lit ''labeling_instructions''), PList [PNone])])]
          (PStr (lit ''reviews'')) =
     Some (PDict [(PStr (lit ''labeling_instructions''), PList [PNone])]) \<and>
   (\<exists>errors.
      validate_config
        (PDict [(PStr (lit ''reviews''),
                 PDict [(PStr (lit ''labeling_instructions''), PList [PNone])])]) = Inr errors)"
proof -
  have h: "map_of [(PStr (lit ''reviews''),
                    PDict [(PStr (lit ''labeling_instructions''), PList [PNone])])]
                  (PStr (lit ''reviews'')) =
             Some (PDict [(PStr (lit ''labeling_instructions''), PList [PNone])])"
    by simp
  from mapping_reviews_never_raises [OF h, of "[]"] h show ?thesis by blast
qed

text \<open>
  C4. An element of the \<open>labeling_instructions\<close> list that is a plain string, at index
  \<open>i\<close>, gives exactly one error: \<open>Expected object, received string at\<close> followed by the
  path, which is a double quote (code point 34), \<open>reviews.labeling_instructions[\<close>, the
  decimal digits of \<open>i\<close>, \<open>]\<close> and a double quote. There is no error about a field: the
  returned list is the errors of the elements before \<open>i\<close>, this one message, and the
  errors of the elements after \<open>i\<close>.
\<close>

theorem string_element_single_error:
  assumes "map_of kvs (PStr (lit ''reviews'')) = Some (PDict rs)"
      and "map_of rs (PStr (lit ''labeling_instructions'')) = Some (PList xs)"
      and "i < length xs"
      and "xs ! i = PStr s"
  shows "validate_config (PDict kvs) =
           Inr (check_instructions 0 (take i xs) [] @
                [lit ''Expected object, received string at '' @
                 [34] @ lit ''reviews.labeling_instructions['' @ str_nat i @ lit '']'' @ [34]] @
                check_instructions (Suc i) (drop (Suc i) xs) []) \<and>
         decimal_of i (str_nat i)"
  using validate_config_at [OF assms(1,2,3)] assms(4) str_nat_decimal [of i]
  by (simp add: path_def)

theorem string_element_single_error_witness:
  "validate_config
     (PDict [(PStr (lit ''reviews''),
              PDict [(PStr (lit ''labeling_instructions''), PList [PStr (lit ''bug'')])])]) =
     Inr [lit ''Expected object, received string at '' @
          [34] @ lit ''reviews.labeling_instructions[0]'' @ [34]]"
proof -
  have d: "str_nat 0 = lit ''0''"
    by (simp add: str_nat.simps lit_def)
  from string_element_single_error
          [of "[(PStr (lit ''reviews''),
                 PDict [(PStr (lit ''labeling_instructions''), PList [PStr (lit ''bug'')])])]"
              "[(PStr (lit ''labeling_instructions''), PList [PStr (lit ''bug'')])]"
              "[PStr (lit ''bug'')]" 0 "lit ''bug''"]
  show ?thesis
    by (simp add: d lit_def)
qed

text \<open>
  C5. A mapping element at index \<open>i\<close> with neither a \<open>label\<close> nor an \<open>instructions\<close> key
  gives exactly two errors, the missing label first and the missing instructions second,
  each followed by the path of the element: a double quote (code point 34),
  \<open>reviews.labeling_instructions[\<close>, the decimal digits of \<open>i\<close>, \<open>]\<close> and a double quote.
  The two field checks are independent: for every mapping element the errors are those of
  the label check followed by those of the instructions check, each computed on its own.
\<close>

theorem mapping_missing_both_two_errors:
  assumes "map_of kvs (PStr (lit ''reviews'')) = Some (PDict rs)"
      and "map_of rs (PStr (lit ''labeling_instructions'')) = Some (PList xs)"
      and "i < length xs"
      and "xs ! i = PDict d"
      and "map_of d (PStr (lit ''label'')) = None"
      and "map_of d (PStr (lit ''instructions'')) = None"
  shows "validate_config (PDict kvs) =
           Inr (check_instructions 0 (take i xs) [] @
                [lit ''Missing 'label' field at '' @
                 [34] @ lit ''reviews.labeling_instructions['' @ str_nat i @ lit '']'' @ [34],
                 lit ''Missing 'instructions' field at '' @
                 [34] @ lit ''reviews.labeling_instructions['' @ str_nat i @ lit '']'' @ [34]] @
                check_instructions (Suc i) (drop (Suc i) xs) []) \<and>
         decimal_of i (str_nat i) \<and>
         check_instruction i (PDict d') errors =
           errors @ check_label i d' [] @ check_instructions_field i d' []"
proof -
  have "check_instruction i (xs ! i) [] =
          [lit ''Missing 'label' field at '' @ path i,
           lit ''Missing 'instructions' field at '' @ path i]"
    using assms(4,5,6)
    by (simp add: check_instruction_dict check_label_def check_instructions_field_def)
  with validate_config_at [OF assms(1,2,3)]
  have "validate_config (PDict kvs) =
           Inr (check_instructions 0 (take i xs) [] @
                [lit ''Missing 'label' field at '' @ path i,
                 lit ''Missing 'instructions' field at '' @ path i] @
                check_instructions (Suc i) (drop (Suc i) xs) [])"
    by simp
  then have first: "validate_config (PDict kvs) =
           Inr (check_instructions 0 (take i xs) [] @
                [lit ''Missing 'label' field at '' @
                 [34] @ lit ''reviews.labeling_instructions['' @ str_nat i @ lit '']'' @ [34],
                 lit ''Missing 'instructions' field at '' @
                 [34] @ lit ''reviews.labeling_instructions['' @ str_nat i @ lit '']'' @ [34]] @
                check_instructions (Suc i) (drop (Suc i) xs) [])"
    by (simp add: path_def)
  have "check_instruction i (PDict d') errors =
           errors @ check_label i d' [] @ check_instructions_field i d' []"
    by (rule check_instruction_dict)
  with first str_nat_decimal [of i] show ?thesis by blast
qed

theorem mapping_missing_both_two_errors_witness:
  "validate_config
     (PDict [(PStr (lit ''reviews''),
              PDict [(PStr (lit ''labeling_instructions''),
                      PList [PDict [(PStr (lit ''name''), PStr (lit ''bug''))]])])]) =
     Inr [lit ''Missing 'label' field at '' @
          [34] @ lit ''reviews.labeling_instructions[0]'' @ [34],
          lit ''Missing 'instructions' field at '' @
          [34] @ lit ''reviews.labeling_instructions[0]'' @ [34]]"
proof -
  have h5: "map_of [(PStr (lit ''name''), PStr (lit ''bug''))] (PStr (lit ''label'')) = None"
    by (simp add: lit_def)
  have h6: "map_of [(PStr (lit ''name''), PStr (lit ''bug''))] (PStr (lit ''instructions'')) = None"
    by (simp add: lit_def)
  have d: "str_nat 0 = [48]"
    by (simp add: str_nat.simps)
  from mapping_missing_both_two_errors
         [of "[(PStr (lit ''reviews''),
                PDict [(PStr (lit ''labeling_instructions''),
                        PList [PDict [(PStr (lit ''name''), PStr (lit ''bug''))]])])]"
             "[(PStr (lit ''labeling_instructions''),
                PList [PDict [(PStr (lit ''name''), PStr (lit ''bug''))]])]"
             "[PDict [(PStr (lit ''name''), PStr (lit ''bug''))]]" 0
             "[(PStr (lit ''name''), PStr (lit ''bug''))]", OF _ _ _ _ h5 h6]
  show ?thesis
    by (simp add: d lit_def)
qed

text \<open>
  C6. For a mapping element whose \<open>instructions\<close> value is a string of length 3001, the
  \<open>instructions\<close> field gives exactly one error, the character limit message; a string
  of length 3000 gives none. The three checks of the field exclude each other and come
  in the order missing, wrong type, too long: at most one message, chosen in that order.
\<close>

theorem instructions_length_limit:
  assumes "map_of kvs (PStr (lit ''reviews'')) = Some (PDict rs)"
      and "map_of rs (PStr (lit ''labeling_instructions'')) = Some (PList xs)"
      and "i < length xs"
      and "xs ! i = PDict d"
  shows "(map_of d (PStr (lit ''instructions'')) = Some (PStr s) \<and> length s = 3001 \<longrightarrow>
            validate_config (PDict kvs) =
              Inr (check_instructions 0 (take i xs) [] @ check_label i d [] @
                   [lit '''instructions' exceeds 3000 character limit at '' @ path i] @
                   check_instructions (Suc i) (drop (Suc i) xs) [])) \<and>
         (map_of d (PStr (lit ''instructions'')) = Some (PStr s) \<and> length s = 3000 \<longrightarrow>
            validate_config (PDict kvs) =
              Inr (check_instructions 0 (take i xs) [] @ check_label i d [] @
                   check_instructions (Suc i) (drop (Suc i) xs) [])) \<and>
         validate_config (PDict kvs) =
           Inr (check_instructions 0 (take i xs) [] @ check_label i d [] @
                (case map_of d (PStr (lit ''instructions'')) of
                   None \<Rightarrow> [lit ''Missing 'instructions' field at '' @ path i]
                 | Some v \<Rightarrow>
                     if \<not> is_str v then [lit '''instructions' must be a string at '' @ path i]
                     else if (\<exists>t. v = PStr t \<and> 3000 < length t)
                     then [lit '''instructions' exceeds 3000 character limit at '' @ path i]
                     else []) @
                check_instructions (Suc i) (drop (Suc i) xs) [])"
proof -
  have full: "validate_config (PDict kvs) =
                Inr (check_instructions 0 (take i xs) [] @ check_label i d [] @
                     check_instructions_field i d [] @
                     check_instructions (Suc i) (drop (Suc i) xs) [])"
    using validate_config_at [OF assms(1,2,3)] assms(4) check_instruction_dict [of i d "[]"]
    by (simp del: check_instruction.simps)
  have long: "check_instructions_field i d [] =
                [lit '''instructions' exceeds 3000 character limit at '' @ path i]"
    if "map_of d (PStr (lit ''instructions'')) = Some (PStr s)" "length s = 3001"
    using that by (simp add: check_instructions_field_def)
  have short: "check_instructions_field i d [] = []"
    if "map_of d (PStr (lit ''instructions'')) = Some (PStr s)" "length s = 3000"
    using that by (simp add: check_instructions_field_def)
  show ?thesis
    using full long short by (simp add: check_instructions_field_cases)
qed

theorem instructions_length_limit_witness:
  "validate_config
     (PDict [(PStr (lit ''reviews''),
              PDict [(PStr (lit ''labeling_instructions''),
                      PList [PDict [(PStr (lit ''label''), PStr (lit ''bug'')),
                                    (PStr (lit ''instructions''), PStr (replicate 3001 120))]])])]) =
     Inr [lit '''instructions' exceeds 3000 character limit at '' @ path 0] \<and>
   validate_config
     (PDict [(PStr (lit ''reviews''),
              PDict [(PStr (lit ''labeling_instructions''),
                      PList [PDict [(PStr (lit ''label''), PStr (lit ''bug'')),
                                    (PStr (lit ''instructions''), PStr (replicate 3000 120))]])])]) =
     Inr []"
proof -
  have ne: "PStr (lit ''label'') \<noteq> PStr (lit ''instructions'')"
    by (simp add: lit_def)
  have a: "map_of [(PStr (lit ''label''), PStr (lit ''bug'')),
                   (PStr (lit ''instructions''), PStr (replicate 3001 120))]
                  (PStr (lit ''instructions'')) = Some (PStr (replicate 3001 120)) \<and>
           length (replicate 3001 (120::nat)) = 3001"
    using ne by simp
  have b: "map_of [(PStr (lit ''label''), PStr (lit ''bug'')),
                   (PStr (lit ''instructions''), PStr (replicate 3000 120))]
                  (PStr (lit ''instructions'')) = Some (PStr (replicate 3000 120)) \<and>
           length (replicate 3000 (120::nat)) = 3000"
    using ne by simp
  have l: "check_label 0 [(PStr (lit ''label''), PStr (lit ''bug'')),
                          (PStr (lit ''instructions''), PStr t)] [] = []" for t
    by (simp add: check_label_def)
  from instructions_length_limit
         [of "[(PStr (lit ''reviews''),
                PDict [(PStr (lit ''labeling_instructions''),
                        PList [PDict [(PStr (lit ''label''), PStr (lit ''bug'')),
                                      (PStr (lit ''instructions''), PStr (replicate 3001 120))]])])]"
             "[(PStr (lit ''labeling_instructions''),
                PList [PDict [(PStr (lit ''label''), PStr (lit ''bug'')),
                              (PStr (lit ''instructions''), PStr (replicate 3001 120))]])]"
             "[PDict [(PStr (lit ''label''), PStr (lit ''bug'')),
                      (PStr (lit ''instructions''), PStr (replicate 3001 120))]]" 0
             "[(PStr (lit ''label''), PStr (lit ''bug'')),
               (PStr (lit ''instructions''), PStr (replicate 3001 120))]"
             "replicate 3001 120"] a l
  have first: "validate_config
     (PDict [(PStr (lit ''reviews''),
              PDict [(PStr (lit ''labeling_instructions''),
                      PList [PDict [(PStr (lit ''label''), PStr (lit ''bug'')),
                                    (PStr (lit ''instructions''), PStr (replicate 3001 120))]])])]) =
     Inr [lit '''instructions' exceeds 3000 character limit at '' @ path 0]"
    by simp
  from instructions_length_limit
         [of "[(PStr (lit ''reviews''),
                PDict [(PStr (lit ''labeling_instructions''),
                        PList [PDict [(PStr (lit ''label''), PStr (lit ''bug'')),
                                      (PStr (lit ''instructions''), PStr (replicate 3000 120))]])])]"
             "[(PStr (lit ''labeling_instructions''),
                PList [PDict [(PStr (lit ''label''), PStr (lit ''bug'')),
                              (PStr (lit ''instructions''), PStr (replicate 3000 120))]])]"
             "[PDict [(PStr (lit ''label''), PStr (lit ''bug'')),
                      (PStr (lit ''instructions''), PStr (replicate 3000 120))]]" 0
             "[(PStr (lit ''label''), PStr (lit ''bug'')),
               (PStr (lit ''instructions''), PStr (replicate 3000 120))]"
             "replicate 3000 120"] b l
  have second: "validate_config
     (PDict [(PStr (lit ''reviews''),
              PDict [(PStr (lit ''labeling_instructions''),
                      PList [PDict [(PStr (lit ''label''), PStr (lit ''bug'')),
                                    (PStr (lit ''instructions''), PStr (replicate 3000 120))]])])]) =
     Inr []"
    by simp
  from first second show ?thesis by blast
qed






text \<open>
  C10. When \<open>labeling_instructions\<close> is a list, the returned errors are the errors of the
  elements, element after element in the order of the list. Each element gives at most two
  messages, and exactly one when it is not a mapping; each message of the element at index
  \<open>i\<close> holds the path of index \<open>i\<close> and of no other index. So every error that mentions
  index \<open>i\<close> comes before every error that mentions index \<open>j\<close> when \<open>i < j\<close>. An empty list
  gives no error.
\<close>

theorem per_element_errors_in_index_order:
  assumes "map_of kvs (PStr (lit ''reviews'')) = Some (PDict rs)"
      and "map_of rs (PStr (lit ''labeling_instructions'')) = Some (PList xs)"
  shows "validate_config (PDict kvs) =
           Inr (concat (map (\<lambda>(i, x). check_instruction i x []) (List.enumerate 0 xs))) \<and>
         (\<forall>i < length xs.
            length (check_instruction i (xs ! i) []) \<le> 2 \<and>
            (\<not> is_dict (xs ! i) \<longrightarrow> length (check_instruction i (xs ! i) []) = 1) \<and>
            (\<forall>m \<in> set (check_instruction i (xs ! i) []).
               mentions i m \<and> (\<forall>j. mentions j m \<longrightarrow> j = i))) \<and>
         (\<forall>errors a b i j.
            validate_config (PDict kvs) = Inr errors \<and> a < length errors \<and> b < length errors \<and>
            mentions i (errors ! a) \<and> mentions j (errors ! b) \<and> i < j \<longrightarrow> a < b) \<and>
         (xs = [] \<longrightarrow> validate_config (PDict kvs) = Inr [])"
proof -
  have v: "validate_config (PDict kvs) = Inr (check_instructions 0 xs [])"
    using assms by (rule validate_config_list)
  have blocks: "validate_config (PDict kvs) =
                  Inr (concat (map (\<lambda>(i, x). check_instruction i x []) (List.enumerate 0 xs)))"
    unfolding v by (simp only: check_instructions_enumerate)
  have each: "length (check_instruction i (xs ! i) []) \<le> 2 \<and>
              (\<not> is_dict (xs ! i) \<longrightarrow> length (check_instruction i (xs ! i) []) = 1) \<and>
              (\<forall>m \<in> set (check_instruction i (xs ! i) []).
                 mentions i m \<and> (\<forall>j. mentions j m \<longrightarrow> j = i))" for i
    using check_instruction_length [where i = i and v = "xs ! i"] check_instruction_at_path [where i = i and v = "xs ! i"]
          at_path_mentions at_path_only
    by blast
  have order: "a < b"
    if "validate_config (PDict kvs) = Inr errors" "a < length errors" "b < length errors"
       "mentions i (errors ! a)" "mentions j (errors ! b)" "i < j" for errors a b i j
  proof -
    from that(1) v have "errors = check_instructions 0 xs []" by simp
    with that(2-6) show ?thesis
      using check_instructions_ordered [of a 0 xs b i j] by simp
  qed
  have empty: "xs = [] \<longrightarrow> validate_config (PDict kvs) = Inr []"
    using v by simp
  from blocks each order empty show ?thesis
    by blast
qed

theorem per_element_errors_in_index_order_witness:
  "validate_config
     (PDict [(PStr (lit ''reviews''),
              PDict [(PStr (lit ''labeling_instructions''),
                      PList [PStr (lit ''bug''),
                             PDict [(PStr (lit ''instructions''), PInt 5)],
                             PNone])])]) =
     Inr [lit ''Expected object, received string at '' @ path 0,
          lit ''Missing 'label' field at '' @ path 1,
          lit '''instructions' must be a string at '' @ path 1,
          lit ''Invalid type at '' @ path 2 @ lit '': '' @ lit ''expected object, got '' @
            lit ''NoneType''] \<and>
   mentions 0 (lit ''Expected object, received string at '' @ path 0) \<and>
   mentions 2 (lit ''Invalid type at '' @ path 2 @ lit '': '' @ lit ''expected object, got '' @
                 lit ''NoneType'') \<and>
   (0::nat) < 3"
proof -
  let ?xs = "[PStr (lit ''bug''), PDict [(PStr (lit ''instructions''), PInt 5)], PNone]"
  let ?rs = "[(PStr (lit ''labeling_instructions''), PList ?xs)]"
  let ?kvs = "[(PStr (lit ''reviews''), PDict ?rs)]"
  let ?e0 = "lit ''Expected object, received string at '' @ path 0"
  let ?e3 = "lit ''Invalid type at '' @ path 2 @ lit '': '' @ lit ''expected object, got '' @
               lit ''NoneType''"
  have h1: "map_of ?kvs (PStr (lit ''reviews'')) = Some (PDict ?rs)" by simp
  have h2: "map_of ?rs (PStr (lit ''labeling_instructions'')) = Some (PList ?xs)" by simp
  note t = per_element_errors_in_index_order [OF h1 h2]
  have blocks: "concat (map (\<lambda>(i, x). check_instruction i x []) (List.enumerate 0 ?xs)) =
                  [?e0, lit ''Missing 'label' field at '' @ path 1,
                   lit '''instructions' must be a string at '' @ path 1, ?e3]"
    by (simp add: check_label_def check_instructions_field_def lit_def numeral_2_eq_2)
  from t blocks have r: "validate_config (PDict ?kvs) =
      Inr [?e0, lit ''Missing 'label' field at '' @ path 1,
           lit '''instructions' must be a string at '' @ path 1, ?e3]"
    by simp
  have m0: "mentions 0 ?e0"
    by (rule at_path_mentions [OF at_path_prefixI [OF message_literals_no_quote(1)]])
  have "34 \<notin> set (lit '': '' @ lit ''expected object, got '' @ lit ''NoneType'')"
    by (simp add: lit_def)
  from at_pathI [OF message_literals_no_quote(7) this, of 2]
  have m2: "mentions 2 ?e3" by (rule at_path_mentions)
  from t have "\<forall>errors a b i j.
            validate_config (PDict ?kvs) = Inr errors \<and> a < length errors \<and> b < length errors \<and>
            mentions i (errors ! a) \<and> mentions j (errors ! b) \<and> i < j \<longrightarrow> a < b"
    by blast
  from this [rule_format, of _ 0 3 0 2] r m0 m2 have "(0::nat) < 3"
    by simp
  with r m0 m2 show ?thesis by blast
qed

end
